theory Spec2Isabelle
  imports Main "HOL-Library.AList"
begin

section \<open>Strings and paths\<close>

text \<open>
  JavaScript strings are modelled as \<open>string\<close>. The three string operations the
  build script uses are \<open>startsWith\<close>, \<open>slice\<close> (which is \<open>drop\<close>) and
  \<open>split\<close> with a non-empty separator.
\<close>

definition startsWith :: "string \<Rightarrow> string \<Rightarrow> bool" where
  "startsWith s p = (take (length p) s = p)"

text \<open>
  \<open>s.split(sep)\<close> cuts \<open>s\<close> at every occurrence of \<open>sep\<close>, scanning from the
  left; occurrences do not overlap. The accumulator holds the current piece, reversed.
  With the empty separator JavaScript cuts between all characters.
\<close>

function split_js :: "string \<Rightarrow> string \<Rightarrow> string \<Rightarrow> string list" where
  "split_js sep acc [] = [rev acc]"
| "split_js sep acc (c # cs) =
     (if sep = [] then map (\<lambda>x. [x]) (c # cs)
      else if startsWith (c # cs) sep
        then rev acc # split_js sep [] (drop (length sep) (c # cs))
        else split_js sep (c # acc) cs)"
  by pat_completeness auto
termination
  by (relation "measure (\<lambda>(sep, acc, s). length s)") auto

definition split :: "string \<Rightarrow> string \<Rightarrow> string list" where
  "split s sep = split_js sep [] s"

text \<open>
  The path functions are those of \<open>node:path\<close> on a POSIX host. \<open>basename\<close> drops
  trailing slashes and returns what follows the last remaining slash.
\<close>

definition basename :: "string \<Rightarrow> string" where
  "basename p =
     rev (takeWhile (\<lambda>c. c \<noteq> CHR ''/'') (dropWhile (\<lambda>c. c = CHR ''/'') (rev p)))"

text \<open>
  \<open>extname\<close> is the part of the basename from its last dot on; it is empty when there
  is no dot, when the dot is the first character of the basename, and for \<open>..\<close>.
\<close>

definition extname :: "string \<Rightarrow> string" where
  "extname p =
     (let b = basename p in
      if CHR ''.'' \<notin> set b then []
      else
        let ext = CHR ''.'' # rev (takeWhile (\<lambda>c. c \<noteq> CHR ''.'') (rev b));
            pre = take (length b - length ext) b
        in if pre = [] \<or> b = ''..'' then [] else ext)"

fun split_char :: "char \<Rightarrow> string \<Rightarrow> string list" where
  "split_char c [] = [[]]"
| "split_char c (x # xs) =
     (if x = c then [] # split_char c xs
      else (case split_char c xs of
              [] \<Rightarrow> [[x]]
            | y # ys \<Rightarrow> (x # y) # ys))"

text \<open>
  \<open>normalizeString\<close> walks over the segments of a path: empty segments and \<open>.\<close>
  are skipped, \<open>..\<close> removes the segment before it unless there is none or it is
  itself \<open>..\<close>, in which case \<open>..\<close> is kept for a relative path and dropped for an
  absolute one. The stack of kept segments is held reversed.
\<close>

fun normalizeString :: "bool \<Rightarrow> string list \<Rightarrow> string list \<Rightarrow> string list" where
  "normalizeString allowAboveRoot res [] = rev res"
| "normalizeString allowAboveRoot res (s # ss) =
     (if s = [] \<or> s = ''.'' then normalizeString allowAboveRoot res ss
      else if s = ''..'' then
        (case res of
           [] \<Rightarrow> normalizeString allowAboveRoot (if allowAboveRoot then [''..''] else []) ss
         | t # ts \<Rightarrow>
             if t \<noteq> ''..'' then normalizeString allowAboveRoot ts ss
             else normalizeString allowAboveRoot
                    (if allowAboveRoot then ''..'' # res else res) ss)
      else normalizeString allowAboveRoot (s # res) ss)"

fun intercalate :: "string \<Rightarrow> string list \<Rightarrow> string" where
  "intercalate sep [] = []"
| "intercalate sep [x] = x"
| "intercalate sep (x # y # ys) = x @ sep @ intercalate sep (y # ys)"

definition normalize :: "string \<Rightarrow> string" where
  "normalize p =
     (if p = [] then ''.''
      else
        let isAbsolute = (hd p = CHR ''/'');
            trailingSeparator = (last p = CHR ''/'');
            q = intercalate ''/'' (normalizeString (\<not> isAbsolute) [] (split_char CHR ''/'' p))
        in if q = [] then (if isAbsolute then ''/'' else if trailingSeparator then ''./'' else ''.'')
           else (if isAbsolute then ''/'' else []) @ q @ (if trailingSeparator then ''/'' else []))"

text \<open>\<open>path.join\<close> glues its non-empty arguments with slashes and normalizes.\<close>

definition path_join :: "string list \<Rightarrow> string" where
  "path_join args =
     (let joined = intercalate ''/'' (filter (\<lambda>a. a \<noteq> []) args)
      in if joined = [] then ''.'' else normalize joined)"

section \<open>The development server\<close>

definition THIS_PACKAGE :: string where
  "THIS_PACKAGE = ''umalator-global''"

definition MIME_TYPES :: "(string \<times> string) list" where
  "MIME_TYPES =
     [(''.html'', ''text/html; charset=UTF-8''),
      (''.css'', ''text/css''),
      (''.js'', ''text/javascript''),
      (''.map'', ''application/json''),
      (''.png'', ''image/png''),
      (''.jpg'', ''image/jpeg''),
      (''.svg'', ''image/svg+xml''),
      (''.ico'', ''image/x-icon''),
      (''.otf'', ''font/otf''),
      (''.ttf'', ''font/ttf''),
      (''.woff'', ''font/woff'')]"

definition ARTIFACTS :: "string list" where
  "ARTIFACTS = [''bundle.js'', ''bundle.css'', ''simulator.worker.js'']"

definition SOURCEMAP_ARTIFACTS :: "string list" where
  "SOURCEMAP_ARTIFACTS = [''bundle.js.map'', ''bundle.css.map'', ''simulator.worker.js.map'']"

text \<open>
  The options the server is started with: the optional path prefix \<open>subpackage_of\<close>
  (\<open>None\<close> is JavaScript's \<open>undefined\<close>; the empty string is falsy as well) and the
  repository root that static files are served from.
\<close>

record config =
  subpackage_of :: "string option"
  root :: string

definition truthy :: "string option \<Rightarrow> bool" where
  "truthy v = (case v of None \<Rightarrow> False | Some p \<Rightarrow> p \<noteq> [])"

definition text_of :: "string option \<Rightarrow> string" where
  "text_of v = (case v of None \<Rightarrow> ''undefined'' | Some p \<Rightarrow> p)"

text \<open>
  The file system is consulted through \<open>stat\<close> (which fails, or tells a file from a
  directory) and \<open>access\<close>.
\<close>

datatype stat = File | Directory

record filesystem =
  fs_stat :: "string \<Rightarrow> stat option"
  fs_access :: "string \<Rightarrow> bool"

text \<open>
  Every call of \<open>ctx.rebuild()\<close> is recorded in a store, in the order of the calls; a
  handle is an index into the store. The promise that \<open>output\<close> refers to is created
  together with the call. Its executor resolves it with the map of output files when the
  rebuild succeeds; when the rebuild rejects, the executor's own promise rejects and
  \<open>resolve\<close> is never called, so the promise in \<open>output\<close> stays pending.
\<close>

type_synonym handle = nat

datatype rebuild = Running | Succeeded "(string \<times> string) list" | Failed

datatype promise = Pending | Fulfilled "(string \<times> string) list"

fun settled :: "rebuild \<Rightarrow> promise" where
  "settled Running = Pending"
| "settled (Succeeded m) = Fulfilled m"
| "settled Failed = Pending"

text \<open>
  The variables that \<open>runServer\<close> closes over. \<open>requestCount\<close> is a JavaScript
  \<open>Map\<close>, kept as an association list in insertion order; the counters are JavaScript
  numbers that only ever hold small non-negative integers.
\<close>

record server =
  requestCount :: "(string \<times> nat) list"
  buildCount :: nat
  output_promise :: "handle option"
  workerState :: nat
  rebuilds :: "rebuild list"

definition init_server :: server where
  "init_server =
     \<lparr>requestCount = map (\<lambda>f. (f, 0)) (ARTIFACTS @ SOURCEMAP_ARTIFACTS),
      buildCount = 0,
      output_promise = None,
      workerState = 0,
      rebuilds = []\<rparr>"

datatype response =
    Redirect string
  | ArtifactOK "string option" nat string
  | StaticOK string string
  | NotFound

fun status :: "response \<Rightarrow> nat" where
  "status (Redirect loc) = 302"
| "status (ArtifactOK ct len body) = 200"
| "status (StaticOK ct file) = 200"
| "status NotFound = 404"

text \<open>
  What the handler has done when it first gives up control: it has answered, or it is
  suspended in \<open>await output\<close> on the handle it read from \<open>output\<close>, or it has
  thrown.
\<close>

datatype outcome = Respond response | Await "handle option" string | Throws

text \<open>The static branch: \<open>stat\<close>, then \<open>access\<close>, then a stream or a 404.\<close>

definition serve_static :: "config \<Rightarrow> filesystem \<Rightarrow> string \<Rightarrow> response" where
  "serve_static cfg fs url =
     (let fp = path_join [root cfg, url];
          e = (case fs_stat fs fp of
                 None \<Rightarrow> None
               | Some Directory \<Rightarrow> Some (path_join [fp, ''index.html''])
               | Some File \<Rightarrow> Some fp);
          fpOrIndexHtml = (case e of None \<Rightarrow> fp | Some q \<Rightarrow> if q = [] then fp else q)
      in if fs_access fs fpOrIndexHtml \<and> fpOrIndexHtml \<noteq> []
         then StaticOK (case map_of MIME_TYPES (extname fpOrIndexHtml) of
                          None \<Rightarrow> ''application/octet-stream''
                        | Some t \<Rightarrow> t) fpOrIndexHtml
         else NotFound)"

text \<open>
  The request callback that \<open>runServer\<close> passes to \<open>http.createServer\<close> is
  \<open>handler\<close> below; \<open>count_request\<close> is its artifact branch up to
  \<open>await output\<close>. The lookup in \<open>requestCount\<close> cannot
  miss, because the branch is guarded by membership in the two lists the map was built
  from (\<open>consistent\<close> below holds in every state that is reached); the model
  stops the handler in that case and leaves the state alone.
\<close>

definition count_request :: "server \<Rightarrow> string \<Rightarrow> server \<times> outcome" where
  "count_request s filename =
     (case map_of (requestCount s) filename of
        None \<Rightarrow> (s, Throws)
      | Some c \<Rightarrow>
          let w = (if filename = ''simulator.worker.js''
                   then (if workerState s = 0 then 1 else 0) else workerState s);
              requestN = c + (if filename = ''simulator.worker.js'' then w else 1);
              s1 = s\<lparr>requestCount := AList.update filename requestN (requestCount s),
                     workerState := w\<rparr>;
              s2 = (if requestN \<noteq> buildCount s1
                    then s1\<lparr>buildCount := buildCount s1 + 1,
                            output_promise := Some (length (rebuilds s1)),
                            rebuilds := rebuilds s1 @ [Running]\<rparr>
                    else s1)
          in (s2, Await (output_promise s2) filename))"

definition handler :: "config \<Rightarrow> filesystem \<Rightarrow> server \<Rightarrow> string \<Rightarrow> server \<times> outcome" where
  "handler cfg fs s url =
     (if truthy (subpackage_of cfg)
         \<and> \<not> startsWith url (''/'' @ text_of (subpackage_of cfg) @ ''/'')
      then (s, Respond (Redirect (''/'' @ text_of (subpackage_of cfg) @ ''/'' @ THIS_PACKAGE @ ''/'')))
      else
        let url' = drop (if truthy (subpackage_of cfg)
                         then length (text_of (subpackage_of cfg)) + 1 else 0) url;
            filename = basename url'
        in if filename \<in> set ARTIFACTS \<or> filename \<in> set SOURCEMAP_ARTIFACTS
           then count_request s filename
           else (s, Respond (serve_static cfg fs url')))"

text \<open>
  Once the awaited promise is fulfilled the handler looks its file up in the map and
  answers; if the map lacks the file, reading \<open>artifact.length\<close> throws.
\<close>

definition deliver :: "(string \<times> string) list \<Rightarrow> string \<Rightarrow> response option" where
  "deliver m filename =
     (case map_of m filename of
        None \<Rightarrow> None
      | Some artifact \<Rightarrow>
          Some (ArtifactOK (map_of MIME_TYPES (extname filename)) (length artifact) artifact))"

definition outputs_map :: "(string \<times> string) list \<Rightarrow> (string \<times> string) list" where
  "outputs_map outputFiles =
     foldl (\<lambda>m file. AList.update (basename (fst file)) (snd file) m) [] outputFiles"

text \<open>
  The server together with its clients: requests are numbered in arrival order;
  \<open>waiting\<close> lists the suspended handlers with the handle each awaits and its file,
  \<open>sent\<close> the responses written, \<open>threw\<close> the requests whose handler threw.
  \<open>awaited\<close> is a history: it keeps, for every request that reached
  \<open>await output\<close> with a promise in hand, the handle and the file, also after the
  request has been answered. \<open>exited\<close> tells that the process has ended.
\<close>

record world =
  srv :: server
  next_id :: nat
  waiting :: "(nat \<times> handle option \<times> string) list"
  awaited :: "(nat \<times> handle \<times> string) list"
  sent :: "(nat \<times> response) list"
  threw :: "nat list"
  exited :: bool

definition init_world :: world where
  "init_world =
     \<lparr>srv = init_server, next_id = 0, waiting = [], awaited = [], sent = [], threw = [],
      exited = False\<rparr>"

datatype event =
    Request string
  | RebuildSucceeds handle "(string \<times> string) list"
  | RebuildFails handle

definition promise_of :: "server \<Rightarrow> handle \<Rightarrow> promise" where
  "promise_of s h = (if h < length (rebuilds s) then settled (rebuilds s ! h) else Pending)"

definition awaits :: "handle \<Rightarrow> nat \<times> handle option \<times> string \<Rightarrow> bool" where
  "awaits h x = (fst (snd x) = Some h)"

definition resume :: "(string \<times> string) list \<Rightarrow> world \<Rightarrow> nat \<times> handle option \<times> string \<Rightarrow> world" where
  "resume m w x =
     (case deliver m (snd (snd x)) of
        None \<Rightarrow> w\<lparr>threw := threw w @ [fst x]\<rparr>
      | Some r \<Rightarrow> w\<lparr>sent := sent w @ [(fst x, r)]\<rparr>)"

definition on_request :: "config \<Rightarrow> filesystem \<Rightarrow> world \<Rightarrow> string \<Rightarrow> world" where
  "on_request cfg fs w url =
     (let (s, out) = handler cfg fs (srv w) url;
          i = next_id w;
          w1 = w\<lparr>srv := s, next_id := i + 1\<rparr>
      in case out of
           Respond r \<Rightarrow> w1\<lparr>sent := sent w1 @ [(i, r)]\<rparr>
         | Throws \<Rightarrow> w1\<lparr>threw := threw w1 @ [i]\<rparr>
         | Await None filename \<Rightarrow> w1\<lparr>threw := threw w1 @ [i]\<rparr>
         | Await (Some h) filename \<Rightarrow>
             (let w2 = w1\<lparr>awaited := awaited w1 @ [(i, h, filename)]\<rparr>
              in case promise_of s h of
                   Pending \<Rightarrow> w2\<lparr>waiting := waiting w2 @ [(i, Some h, filename)]\<rparr>
                 | Fulfilled m \<Rightarrow> resume m w2 (i, Some h, filename)))"

definition on_success :: "world \<Rightarrow> handle \<Rightarrow> (string \<times> string) list \<Rightarrow> world" where
  "on_success w h outputFiles =
     (if h < length (rebuilds (srv w)) \<and> rebuilds (srv w) ! h = Running
      then
        let m = outputs_map outputFiles;
            w1 = w\<lparr>srv := (srv w)\<lparr>rebuilds := (rebuilds (srv w))[h := Succeeded m]\<rparr>,
                   waiting := filter (\<lambda>x. \<not> awaits h x) (waiting w)\<rparr>
        in foldl (resume m) w1 (filter (awaits h) (waiting w))
      else w)"

text \<open>
  When \<open>ctx.rebuild()\<close> rejects, the \<open>await\<close> inside the async executor throws:
  \<open>resolve\<close> is not called, and the rejection lands in the promise that the
  executor itself returned, which the \<open>Promise\<close> constructor drops. Nothing in the
  script handles it, and Node's default for an unhandled rejection is to raise it as
  an uncaught exception, which ends the process.
\<close>

definition on_failure :: "world \<Rightarrow> handle \<Rightarrow> world" where
  "on_failure w h =
     (if h < length (rebuilds (srv w)) \<and> rebuilds (srv w) ! h = Running
      then w\<lparr>srv := (srv w)\<lparr>rebuilds := (rebuilds (srv w))[h := Failed]\<rparr>, exited := True\<rparr>
      else w)"

fun step :: "config \<Rightarrow> filesystem \<Rightarrow> world \<Rightarrow> event \<Rightarrow> world" where
  "step cfg fs w (Request url) = on_request cfg fs w url"
| "step cfg fs w (RebuildSucceeds h outputFiles) = on_success w h outputFiles"
| "step cfg fs w (RebuildFails h) = on_failure w h"

text \<open>
  \<open>step\<close> is the reaction of the running process to one event; \<open>run\<close> is the
  life of the process: once it has exited, no further event is handled.
\<close>

fun run :: "config \<Rightarrow> filesystem \<Rightarrow> world \<Rightarrow> event list \<Rightarrow> world" where
  "run cfg fs w [] = w"
| "run cfg fs w (e # es) = (if exited w then w else run cfg fs (step cfg fs w e) es)"

section \<open>The resolution plugins\<close>

text \<open>
  A filter is a regular expression that the bundler tries on the import specifier. The
  filters of the build script are built from three pieces, each mapping the list of
  remainders still to be matched to the remainders after the piece: a literal, an
  optional piece, and the dot, which stands for any character but the newline.
\<close>

definition lit :: "string \<Rightarrow> string list \<Rightarrow> string list" where
  "lit l rs = map (drop (length l)) (filter (\<lambda>r. startsWith r l) rs)"

definition opt :: "(string list \<Rightarrow> string list) \<Rightarrow> string list \<Rightarrow> string list" where
  "opt piece rs = piece rs @ rs"

definition anychar :: "string list \<Rightarrow> string list" where
  "anychar rs = map tl (filter (\<lambda>r. r \<noteq> [] \<and> hd r \<noteq> CHR 0x0A) rs)"

fun tails :: "string \<Rightarrow> string list" where
  "tails [] = [[]]"
| "tails (c # cs) = (c # cs) # tails cs"

text \<open>The filter \<^verbatim>\<open>/^\.\.?(?:\/uma-skill-tools)?\/data\//\<close>.\<close>

definition dataFilter :: "string \<Rightarrow> bool" where
  "dataFilter p =
     (lit ''/data/'' (opt (lit ''/uma-skill-tools'') (opt (lit ''.'') (lit ''.'' [p]))) \<noteq> [])"

text \<open>
  The filter \<open>new RegExp(f)\<close> for a file name \<open>f\<close> made of letters, underscores and
  dots: it is not anchored, and each dot of the name matches any character.
\<close>

definition fileFilter :: "string \<Rightarrow> string \<Rightarrow> bool" where
  "fileFilter f p =
     list_ex (\<lambda>t. foldl (\<lambda>rs c. if c = CHR ''.'' then anychar rs else lit [c] rs) [t] f \<noteq> [])
       (tails p)"

text \<open>The filters \<^verbatim>\<open>/^node:assert$/\<close> and \<^verbatim>\<open>/^@tanstack\//\<close>.\<close>

definition assertFilter :: "string \<Rightarrow> bool" where
  "assertFilter p = ([] \<in> set (lit ''node:assert'' [p]))"

definition tanstackFilter :: "string \<Rightarrow> bool" where
  "tanstackFilter p = (lit ''@tanstack/'' [p] \<noteq> [])"

text \<open>
  A callback answers with a path and a namespace (\<open>file\<close> unless it names another);
  the callback of the data rule throws when \<open>split\<close> yields fewer than two pieces,
  because \<open>path.join\<close> rejects \<open>undefined\<close>.
\<close>

datatype resolution = Resolved string string | TypeError

type_synonym rule = "(string \<Rightarrow> bool) \<times> (string \<Rightarrow> resolution)"

definition DATA_FILES :: "string list" where
  "DATA_FILES = [''skill_meta.json'', ''skill_aliases.json'', ''umas.json'', ''skill_trigrams.json'']"

definition data_callback :: "string \<Rightarrow> string \<Rightarrow> resolution" where
  "data_callback dirname p =
     (case split p ''/data/'' of
        a # b # rest \<Rightarrow> Resolved (path_join [dirname, b]) ''file''
      | _ \<Rightarrow> TypeError)"

definition file_callback :: "string \<Rightarrow> string \<Rightarrow> string \<Rightarrow> resolution" where
  "file_callback dirname f p = Resolved (path_join [dirname, f]) ''file''"

definition redirectData :: "string \<Rightarrow> rule list" where
  "redirectData dirname =
     (dataFilter, data_callback dirname)
     # map (\<lambda>f. (fileFilter f, file_callback dirname f)) DATA_FILES"

definition mockAssertFn :: "bool \<Rightarrow> string" where
  "mockAssertFn debug = (if debug then ''console.assert'' else ''function(){}'')"

definition mockAssert :: "rule list" where
  "mockAssert = [(assertFilter, \<lambda>p. Resolved p ''mockAssert-ns'')]"

text \<open>
  The \<open>onLoad\<close> callback of \<open>mockAssert\<close> answers every path of its namespace with
  the source text of the stub and the loader.
\<close>

definition mockAssert_onLoad :: "bool \<Rightarrow> string \<Rightarrow> string \<Rightarrow> (string \<times> string) option" where
  "mockAssert_onLoad debug namespace p =
     (if namespace = ''mockAssert-ns''
      then Some (''module.exports={strict:'' @ mockAssertFn debug @ ''};'', ''js'')
      else None)"

definition redirectTable :: "string \<Rightarrow> rule list" where
  "redirectTable dirname =
     [(tanstackFilter,
       \<lambda>p. Resolved (path_join [dirname, ''..'', ''vendor'', drop 10 p, ''index.ts'']) ''file'')]"

text \<open>
  The bundler runs the \<open>onResolve\<close> callbacks in the order of their registration,
  plugin by plugin, and takes the answer of the first whose filter matches; when none
  matches, its own resolution applies.
\<close>

fun first_match :: "rule list \<Rightarrow> string \<Rightarrow> resolution option" where
  "first_match [] p = None"
| "first_match (r # rs) p = (if fst r p then Some (snd r p) else first_match rs p)"

definition onResolve :: "string \<Rightarrow> string \<Rightarrow> resolution option" where
  "onResolve dirname p = first_match (redirectData dirname @ mockAssert @ redirectTable dirname) p"

text \<open>Quantities that the properties below speak about.\<close>

definition includes_str :: "string \<Rightarrow> string \<Rightarrow> bool" where
  "includes_str s sub = list_ex (\<lambda>t. startsWith t sub) (tails s)"

definition DATA_PREFIXES :: "string list" where
  "DATA_PREFIXES = [''./data/'', ''../data/'', ''./uma-skill-tools/data/'', ''../uma-skill-tools/data/'']"

definition is_redirect :: "outcome \<Rightarrow> bool" where
  "is_redirect out = (case out of Respond (Redirect loc) \<Rightarrow> True | _ \<Rightarrow> False)"

definition stripped :: "config \<Rightarrow> string \<Rightarrow> string" where
  "stripped cfg url =
     drop (if truthy (subpackage_of cfg) then length (text_of (subpackage_of cfg)) + 1 else 0) url"

definition is_artifact_request :: "config \<Rightarrow> string \<Rightarrow> bool" where
  "is_artifact_request cfg url =
     ((\<not> truthy (subpackage_of cfg)
        \<or> startsWith url (''/'' @ text_of (subpackage_of cfg) @ ''/''))
      \<and> basename (stripped cfg url) \<in> set (ARTIFACTS @ SOURCEMAP_ARTIFACTS))"

definition maxRequestCount :: "server \<Rightarrow> nat" where
  "maxRequestCount s = foldr max (map snd (requestCount s)) 0"

fun artifact_requests :: "config \<Rightarrow> event list \<Rightarrow> nat" where
  "artifact_requests cfg [] = 0"
| "artifact_requests cfg (Request url # es) =
     (if is_artifact_request cfg url then 1 else 0) + artifact_requests cfg es"
| "artifact_requests cfg (e # es) = artifact_requests cfg es"

text \<open>
  The count that a request for \<open>filename\<close> would store and compare with
  \<open>buildCount\<close>, as the handler computes it.
\<close>

definition requestN :: "server \<Rightarrow> string \<Rightarrow> nat option" where
  "requestN s filename =
     (case map_of (requestCount s) filename of
        None \<Rightarrow> None
      | Some c \<Rightarrow>
          Some (c + (if filename = ''simulator.worker.js''
                     then (if workerState s = 0 then 1 else 0) else 1)))"

definition worker_request :: "config \<Rightarrow> string \<Rightarrow> bool" where
  "worker_request cfg url =
     (is_artifact_request cfg url \<and> basename (stripped cfg url) = ''simulator.worker.js'')"

fun requests :: "event list \<Rightarrow> nat" where
  "requests [] = 0"
| "requests (Request url # es) = 1 + requests es"
| "requests (e # es) = requests es"

fun only_worker_requests :: "config \<Rightarrow> event list \<Rightarrow> bool" where
  "only_worker_requests cfg [] = True"
| "only_worker_requests cfg (Request url # es) =
     (worker_request cfg url \<and> only_worker_requests cfg es)"
| "only_worker_requests cfg (RebuildSucceeds h outputFiles # es) = only_worker_requests cfg es"
| "only_worker_requests cfg (RebuildFails h # es) = False"



text \<open>A server behind the default prefix, over a disk that holds no files.\<close>

definition default_config :: config where
  "default_config = \<lparr>subpackage_of = Some ''uma-tools'', root = ''/repo''\<rparr>"

definition empty_disk :: filesystem where
  "empty_disk = \<lparr>fs_stat = (\<lambda>p. None), fs_access = (\<lambda>p. False)\<rparr>"

section \<open>The request router\<close>

lemma handler_redirect:
  assumes "subpackage_of cfg = Some p" and "p \<noteq> []"
    and "\<not> startsWith url (''/'' @ p @ ''/'')"
  shows "handler cfg fs s url = (s, Respond (Redirect (''/'' @ p @ ''/umalator-global/'')))"
  using assms by (simp add: handler_def truthy_def text_of_def THIS_PACKAGE_def)

lemma short_not_startsWith: "length s < length p \<Longrightarrow> \<not> startsWith s p"
  by (auto simp: startsWith_def)

lemma count_request_not_redirect: "\<not> is_redirect (snd (count_request s f))"
  by (simp add: count_request_def is_redirect_def Let_def split: option.splits)

lemma serve_static_not_redirect: "\<not> is_redirect (Respond (serve_static cfg fs u))"
  by (simp add: serve_static_def is_redirect_def Let_def)

lemma handler_passes:
  assumes "\<not> truthy (subpackage_of cfg) \<or> startsWith url (''/'' @ text_of (subpackage_of cfg) @ ''/'')"
  shows "\<not> is_redirect (snd (handler cfg fs s url))"
  using assms
  by (auto simp: handler_def Let_def count_request_not_redirect serve_static_not_redirect)

lemma handler_static_state:
  assumes "basename (stripped cfg url) \<notin> set (ARTIFACTS @ SOURCEMAP_ARTIFACTS)"
  shows "fst (handler cfg fs s url) = s"
  using assms by (auto simp: handler_def stripped_def Let_def)

lemma handler_static_outcome:
  assumes "basename (stripped cfg url) \<notin> set (ARTIFACTS @ SOURCEMAP_ARTIFACTS)"
  shows "\<exists>r. snd (handler cfg fs s url) = Respond r"
  using assms by (auto simp: handler_def stripped_def Let_def)

text \<open>
  Claim C7. When a prefix is configured and the request path does not start with
  \<open>/prefix/\<close> (in particular when the path is shorter than that), the server
  answers 302 with the location \<open>/prefix/umalator-global/\<close> and none of the
  variables of the coordinator changes.
\<close>

theorem C7_prefix_mismatch_redirects:
  assumes "subpackage_of cfg = Some p" and "p \<noteq> []"
    and "\<not> startsWith url (''/'' @ p @ ''/'') \<or> length url < length (''/'' @ p @ ''/'')"
  shows "step cfg fs w (Request url) =
           w\<lparr>next_id := next_id w + 1,
             sent := sent w @ [(next_id w, Redirect (''/'' @ p @ ''/umalator-global/''))]\<rparr>
         \<and> srv (step cfg fs w (Request url)) = srv w
         \<and> status (Redirect (''/'' @ p @ ''/umalator-global/'')) = 302"
proof -
  from assms(3) have "\<not> startsWith url (''/'' @ p @ ''/'')"
    using short_not_startsWith by blast
  with assms(1,2) have "handler cfg fs (srv w) url
      = (srv w, Respond (Redirect (''/'' @ p @ ''/umalator-global/'')))"
    by (rule handler_redirect)
  then show ?thesis by (simp add: on_request_def Let_def)
qed

theorem C7_prefix_mismatch_redirects_witness:
  "step default_config empty_disk init_world (Request ''/other/index.html'') =
     init_world\<lparr>next_id := 1, sent := [(0, Redirect ''/uma-tools/umalator-global/'')]\<rparr>
   \<and> step default_config empty_disk init_world (Request ''/uma'') =
     init_world\<lparr>next_id := 1, sent := [(0, Redirect ''/uma-tools/umalator-global/'')]\<rparr>"
  using C7_prefix_mismatch_redirects [of default_config "''uma-tools''" "''/other/index.html''" empty_disk init_world]
    C7_prefix_mismatch_redirects [of default_config "''uma-tools''" "''/uma''" empty_disk init_world]
  by (simp add: default_config_def startsWith_def init_world_def)

text \<open>
  Claim C10. With a prefix configured, the path that is exactly \<open>/prefix\<close>, without
  the trailing slash, is redirected; a request is redirected exactly when its path
  does not start with \<open>/prefix/\<close>.
\<close>

theorem C10_prefix_needs_trailing_slash:
  assumes "subpackage_of cfg = Some p" and "p \<noteq> []"
  shows "handler cfg fs s (''/'' @ p) = (s, Respond (Redirect (''/'' @ p @ ''/umalator-global/'')))
         \<and> (is_redirect (snd (handler cfg fs s url)) \<longleftrightarrow> \<not> startsWith url (''/'' @ p @ ''/''))"
proof
  have "\<not> startsWith (''/'' @ p) (''/'' @ p @ ''/'')"
    by (rule short_not_startsWith) simp
  with assms show "handler cfg fs s (''/'' @ p) = (s, Respond (Redirect (''/'' @ p @ ''/umalator-global/'')))"
    by (rule handler_redirect)
next
  show "is_redirect (snd (handler cfg fs s url)) \<longleftrightarrow> \<not> startsWith url (''/'' @ p @ ''/'')"
  proof (cases "startsWith url (''/'' @ p @ ''/'')")
    case True
    with assms(1) have "\<not> is_redirect (snd (handler cfg fs s url))"
      by (intro handler_passes) (simp add: text_of_def)
    with True show ?thesis by simp
  next
    case False
    with assms have "handler cfg fs s url = (s, Respond (Redirect (''/'' @ p @ ''/umalator-global/'')))"
      by (rule handler_redirect)
    with False show ?thesis by (simp add: is_redirect_def)
  qed
qed

theorem C10_prefix_needs_trailing_slash_witness:
  "handler default_config empty_disk init_server ''/uma-tools''
     = (init_server, Respond (Redirect ''/uma-tools/umalator-global/''))
   \<and> \<not> is_redirect (snd (handler default_config empty_disk init_server ''/uma-tools/''))"
  using C10_prefix_needs_trailing_slash [of default_config "''uma-tools''" empty_disk init_server "''/uma-tools/''"]
  by (simp add: default_config_def startsWith_def)

text \<open>
  Claim C9. A request whose file name, taken from the path after the prefix has been
  cut off, is none of the artifact or source-map names leaves \<open>requestCount\<close>,
  \<open>buildCount\<close>, \<open>workerState\<close>, the output handle and the store of rebuilds as
  they were, and suspends no handler.
\<close>

theorem C9_static_passthrough_keeps_state:
  assumes "basename (stripped cfg url) \<notin> set (ARTIFACTS @ SOURCEMAP_ARTIFACTS)"
  shows "srv (step cfg fs w (Request url)) = srv w
         \<and> waiting (step cfg fs w (Request url)) = waiting w"
proof -
  from assms have s: "fst (handler cfg fs (srv w) url) = srv w"
    by (rule handler_static_state)
  from assms obtain r where r: "snd (handler cfg fs (srv w) url) = Respond r"
    using handler_static_outcome by blast
  from s r have "handler cfg fs (srv w) url = (srv w, Respond r)"
    by (metis prod.collapse)
  then show ?thesis by (simp add: on_request_def Let_def)
qed

theorem C9_static_passthrough_keeps_state_witness:
  "basename (stripped default_config ''/uma-tools/umalator-global/index.html'')
     \<notin> set (ARTIFACTS @ SOURCEMAP_ARTIFACTS)
   \<and> srv (step default_config empty_disk init_world (Request ''/uma-tools/umalator-global/index.html''))
     = srv init_world"
  using C9_static_passthrough_keeps_state [of default_config "''/uma-tools/umalator-global/index.html''" empty_disk init_world]
  by (simp add: default_config_def stripped_def truthy_def text_of_def basename_def
      ARTIFACTS_def SOURCEMAP_ARTIFACTS_def)

section \<open>The assertion stub\<close>

lemma node_assert_filters:
  "\<not> dataFilter ''node:assert''"
  "\<not> fileFilter ''skill_meta.json'' ''node:assert''"
  "\<not> fileFilter ''skill_aliases.json'' ''node:assert''"
  "\<not> fileFilter ''umas.json'' ''node:assert''"
  "\<not> fileFilter ''skill_trigrams.json'' ''node:assert''"
  "assertFilter ''node:assert''"
  by code_simp+

text \<open>
  Claim C8. The specifier \<open>node:assert\<close> is answered by the \<open>mockAssert\<close> rule
  with its own namespace, and every path of that namespace loads as a module whose
  \<open>strict\<close> export is \<open>console.assert\<close> when debug is on and an empty function
  when it is off.
\<close>

theorem C8_assert_stub:
  "onResolve dirname ''node:assert'' = Some (Resolved ''node:assert'' ''mockAssert-ns'')
   \<and> mockAssert_onLoad True ''mockAssert-ns'' p
       = Some (''module.exports={strict:console.assert};'', ''js'')
   \<and> mockAssert_onLoad False ''mockAssert-ns'' p
       = Some (''module.exports={strict:function(){}};'', ''js'')"
  by (simp add: onResolve_def redirectData_def mockAssert_def DATA_FILES_def node_assert_filters
      mockAssert_onLoad_def mockAssertFn_def)

section \<open>The rebuild coordinator\<close>

lemma handler_artifact:
  "is_artifact_request cfg url \<Longrightarrow>
     handler cfg fs s url = count_request s (basename (stripped cfg url))"
  by (auto simp: is_artifact_request_def handler_def stripped_def Let_def)

lemma handler_other: "\<not> is_artifact_request cfg url \<Longrightarrow> fst (handler cfg fs s url) = s"
  by (auto simp: is_artifact_request_def handler_def stripped_def Let_def)

lemma count_request_Some:
  assumes "requestN s f = Some n"
  shows "count_request s f =
    (if n \<noteq> buildCount s
     then (s\<lparr>requestCount := AList.update f n (requestCount s),
             workerState := (if f = ''simulator.worker.js'' then (if workerState s = 0 then 1 else 0) else workerState s),
             buildCount := buildCount s + 1,
             output_promise := Some (length (rebuilds s)),
             rebuilds := rebuilds s @ [Running]\<rparr>, Await (Some (length (rebuilds s))) f)
     else (s\<lparr>requestCount := AList.update f n (requestCount s),
             workerState := (if f = ''simulator.worker.js'' then (if workerState s = 0 then 1 else 0) else workerState s)\<rparr>,
           Await (output_promise s) f))"
proof -
  from assms obtain c where c: "map_of (requestCount s) f = Some c"
    and n: "n = c + (if f = ''simulator.worker.js'' then (if workerState s = 0 then 1 else 0) else 1)"
    by (auto simp: requestN_def split: option.splits)
  show ?thesis
    unfolding n by (simp add: count_request_def c Let_def)
qed

lemma count_request_None:
  "requestN s f = None \<Longrightarrow> count_request s f = (s, Throws)"
  by (auto simp: requestN_def count_request_def split: option.splits)

lemma srv_resume [simp]: "srv (resume m w x) = srv w"
  by (simp add: resume_def split: option.splits)

lemma srv_foldl_resume [simp]: "srv (foldl (resume m) w xs) = srv w"
  by (induction xs arbitrary: w) simp_all

lemma waiting_resume [simp]: "waiting (resume m w x) = waiting w"
  by (simp add: resume_def split: option.splits)

lemma waiting_foldl_resume [simp]: "waiting (foldl (resume m) w xs) = waiting w"
  by (induction xs arbitrary: w) simp_all

lemma srv_on_request: "srv (on_request cfg fs w url) = fst (handler cfg fs (srv w) url)"
  by (simp add: on_request_def Let_def split: prod.splits outcome.splits option.splits promise.splits)

lemma srv_on_success:
  "srv (on_success w h files) =
     (if h < length (rebuilds (srv w)) \<and> rebuilds (srv w) ! h = Running
      then (srv w)\<lparr>rebuilds := (rebuilds (srv w))[h := Succeeded (outputs_map files)]\<rparr>
      else srv w)"
  by (simp add: on_success_def Let_def)

lemma srv_on_failure:
  "srv (on_failure w h) =
     (if h < length (rebuilds (srv w)) \<and> rebuilds (srv w) ! h = Running
      then (srv w)\<lparr>rebuilds := (rebuilds (srv w))[h := Failed]\<rparr>
      else srv w)"
  by (simp add: on_failure_def)

lemma exited_resume [simp]: "exited (resume m w x) = exited w"
  by (simp add: resume_def split: option.splits)

lemma exited_foldl_resume [simp]: "exited (foldl (resume m) w xs) = exited w"
  by (induction xs arbitrary: w) simp_all

lemma exited_on_request [simp]: "exited (on_request cfg fs w url) = exited w"
  by (simp add: on_request_def Let_def split: prod.splits outcome.splits option.splits promise.splits)

lemma exited_on_success [simp]: "exited (on_success w h files) = exited w"
  by (simp add: on_success_def Let_def)

lemma srv_on_failure_counters:
  "requestCount (srv (on_failure w h)) = requestCount (srv w)
   \<and> buildCount (srv (on_failure w h)) = buildCount (srv w)
   \<and> workerState (srv (on_failure w h)) = workerState (srv w)
   \<and> output_promise (srv (on_failure w h)) = output_promise (srv w)
   \<and> length (rebuilds (srv (on_failure w h))) = length (rebuilds (srv w))"
  by (simp add: on_failure_def)

text \<open>Counters under one step.\<close>

lemma foldr_max_le: "foldr max xs (0::nat) \<le> b \<longleftrightarrow> (\<forall>x \<in> set xs. x \<le> b)"
  by (induction xs) auto

lemma snd_set_update: "snd ` set (AList.update k v al) \<subseteq> insert v (snd ` set al)"
  by (induction al) auto

lemma maxRequestCount_le:
  "maxRequestCount s \<le> b \<longleftrightarrow> (\<forall>n \<in> snd ` set (requestCount s). n \<le> b)"
  by (simp add: maxRequestCount_def foldr_max_le)

lemma count_request_max:
  assumes "maxRequestCount s \<le> buildCount s"
  shows "maxRequestCount (fst (count_request s f)) \<le> buildCount (fst (count_request s f))"
proof (cases "requestN s f")
  case None
  with assms show ?thesis by (simp add: count_request_None)
next
  case (Some n)
  from assms have old: "\<forall>x \<in> snd ` set (requestCount s). x \<le> buildCount s"
    by (simp add: maxRequestCount_le)
  have n: "n \<le> buildCount s + 1"
  proof -
    from Some obtain c where c: "map_of (requestCount s) f = Some c" and "n \<le> c + 1"
      by (auto simp: requestN_def split: option.splits if_splits)
    from c have "c \<in> snd ` set (requestCount s)"
      by (metis map_of_SomeD image_eqI snd_conv)
    with old \<open>n \<le> c + 1\<close> show ?thesis by fastforce
  qed
  have upd: "\<forall>x \<in> snd ` set (AList.update f n (requestCount s)). x \<le> max n (buildCount s)"
    using old snd_set_update [of f n "requestCount s"] by fastforce
  show ?thesis
    using upd n by (auto simp: count_request_Some [OF Some] maxRequestCount_le)
qed

lemma count_request_buildCount:
  "buildCount (fst (count_request s f)) \<le> Suc (buildCount s)"
  by (cases "requestN s f") (auto simp: count_request_None count_request_Some)

lemma step_max:
  assumes "maxRequestCount (srv w) \<le> buildCount (srv w)"
  shows "maxRequestCount (srv (step cfg fs w e)) \<le> buildCount (srv (step cfg fs w e))"
proof (cases e)
  case (Request url)
  show ?thesis
  proof (cases "is_artifact_request cfg url")
    case True
    with assms Request show ?thesis
      by (simp add: srv_on_request handler_artifact count_request_max)
  next
    case False
    with assms Request show ?thesis
      by (simp add: srv_on_request handler_other)
  qed
next
  case (RebuildSucceeds h files)
  with assms show ?thesis by (simp add: srv_on_success maxRequestCount_def)
next
  case (RebuildFails h)
  with assms show ?thesis by (simp add: srv_on_failure maxRequestCount_def)
qed

lemma step_buildCount:
  "buildCount (srv (step cfg fs w e)) \<le> buildCount (srv w) + artifact_requests cfg [e]"
proof (cases e)
  case (Request url)
  then show ?thesis
    by (cases "is_artifact_request cfg url")
      (simp_all add: srv_on_request handler_artifact handler_other count_request_buildCount)
next
  case (RebuildSucceeds h files)
  then show ?thesis by (simp add: srv_on_success)
next
  case (RebuildFails h)
  then show ?thesis by (simp add: srv_on_failure)
qed

lemma artifact_requests_Cons:
  "artifact_requests cfg (e # es) = artifact_requests cfg [e] + artifact_requests cfg es"
  by (cases e) simp_all

lemma run_max:
  "maxRequestCount (srv w) \<le> buildCount (srv w) \<Longrightarrow>
   maxRequestCount (srv (run cfg fs w es)) \<le> buildCount (srv (run cfg fs w es))"
  by (induction es arbitrary: w) (simp_all add: step_max)

lemma run_buildCount:
  "buildCount (srv (run cfg fs w es)) \<le> buildCount (srv w) + artifact_requests cfg es"
proof (induction es arbitrary: w)
  case Nil
  show ?case by simp
next
  case (Cons e es)
  show ?case
  proof (cases "exited w")
    case True
    then show ?thesis by simp
  next
    case False
    have "buildCount (srv (run cfg fs (step cfg fs w e) es))
        \<le> buildCount (srv (step cfg fs w e)) + artifact_requests cfg es"
      by (rule Cons.IH)
    also have "\<dots> \<le> buildCount (srv w) + artifact_requests cfg [e] + artifact_requests cfg es"
      using step_buildCount [of cfg fs w e] by simp
    finally show ?thesis
      using False by (simp add: artifact_requests_Cons [of cfg e es])
  qed
qed

text \<open>
  Claim C2, as amended. From the start of the server and after every sequence of
  events, \<open>buildCount\<close> is at most the number of artifact requests handled so far,
  and no entry of \<open>requestCount\<close> exceeds \<open>buildCount\<close>. The inequality the
  claim states, \<open>buildCount\<close> at most the largest entry of \<open>requestCount\<close>, does
  not hold: a request for an artifact whose count lags behind starts a rebuild too.
\<close>

theorem C2_buildCount_bounds:
  "maxRequestCount (srv (run cfg fs init_world es)) \<le> buildCount (srv (run cfg fs init_world es))
   \<and> buildCount (srv (run cfg fs init_world es)) \<le> artifact_requests cfg es"
proof
  have "maxRequestCount (srv init_world) \<le> buildCount (srv init_world)"
    by (simp add: init_world_def init_server_def maxRequestCount_def ARTIFACTS_def SOURCEMAP_ARTIFACTS_def)
  then show "maxRequestCount (srv (run cfg fs init_world es)) \<le> buildCount (srv (run cfg fs init_world es))"
    by (rule run_max)
next
  show "buildCount (srv (run cfg fs init_world es)) \<le> artifact_requests cfg es"
    using run_buildCount [of cfg fs init_world es]
    by (simp add: init_world_def init_server_def)
qed

text \<open>
  Claim C2 as stated fails: after two requests for \<open>bundle.js\<close> and one for
  \<open>bundle.css\<close> three rebuilds have been started, while the largest request count
  is two.
\<close>

theorem C2_buildCount_exceeds_requestCount:
  "\<not> buildCount (srv (run default_config empty_disk init_world
        [Request ''/uma-tools/umalator-global/bundle.js'',
         Request ''/uma-tools/umalator-global/bundle.js'',
         Request ''/uma-tools/umalator-global/bundle.css'']))
     \<le> maxRequestCount (srv (run default_config empty_disk init_world
        [Request ''/uma-tools/umalator-global/bundle.js'',
         Request ''/uma-tools/umalator-global/bundle.js'',
         Request ''/uma-tools/umalator-global/bundle.css'']))"
  by code_simp

text \<open>
  The rebuilds started by a run of worker requests. With the worker's count level
  with \<open>buildCount\<close>, the first request of each pair starts a rebuild and the second
  does not.
\<close>

lemma step_other:
  "\<not> (\<exists>url. e = Request url) \<Longrightarrow>
     length (rebuilds (srv (step cfg fs w e))) = length (rebuilds (srv w))
     \<and> requestCount (srv (step cfg fs w e)) = requestCount (srv w)
     \<and> buildCount (srv (step cfg fs w e)) = buildCount (srv w)
     \<and> workerState (srv (step cfg fs w e)) = workerState (srv w)
     \<and> output_promise (srv (step cfg fs w e)) = output_promise (srv w)"
  by (cases e) (simp_all add: srv_on_success srv_on_failure)

lemma worker_first:
  assumes "worker_request cfg url" and "workerState (srv w) = 0"
    and "map_of (requestCount (srv w)) ''simulator.worker.js'' = Some (buildCount (srv w))"
  shows "length (rebuilds (srv (step cfg fs w (Request url)))) = Suc (length (rebuilds (srv w)))
     \<and> workerState (srv (step cfg fs w (Request url))) = 1
     \<and> map_of (requestCount (srv (step cfg fs w (Request url)))) ''simulator.worker.js''
         = Some (buildCount (srv (step cfg fs w (Request url))))"
proof -
  from assms(2,3) have n: "requestN (srv w) ''simulator.worker.js'' = Some (Suc (buildCount (srv w)))"
    by (simp add: requestN_def)
  from assms(1) have "srv (step cfg fs w (Request url)) = fst (count_request (srv w) ''simulator.worker.js'')"
    by (simp add: srv_on_request worker_request_def handler_artifact)
  then show ?thesis
    using assms(2) by (simp add: count_request_Some [OF n] AList.update_conv')
qed

lemma worker_second:
  assumes "worker_request cfg url" and "workerState (srv w) = 1"
    and "map_of (requestCount (srv w)) ''simulator.worker.js'' = Some (buildCount (srv w))"
  shows "length (rebuilds (srv (step cfg fs w (Request url)))) = length (rebuilds (srv w))
     \<and> workerState (srv (step cfg fs w (Request url))) = 0
     \<and> map_of (requestCount (srv (step cfg fs w (Request url)))) ''simulator.worker.js''
         = Some (buildCount (srv (step cfg fs w (Request url))))"
proof -
  from assms(2,3) have n: "requestN (srv w) ''simulator.worker.js'' = Some (buildCount (srv w))"
    by (simp add: requestN_def)
  from assms(1) have "srv (step cfg fs w (Request url)) = fst (count_request (srv w) ''simulator.worker.js'')"
    by (simp add: srv_on_request worker_request_def handler_artifact)
  then show ?thesis
    using assms(2) by (simp add: count_request_Some [OF n] AList.update_conv')
qed

lemma worker_run:
  assumes "only_worker_requests cfg es" and "\<not> exited w"
    and "map_of (requestCount (srv w)) ''simulator.worker.js'' = Some (buildCount (srv w))"
  shows "(workerState (srv w) = 0 \<longrightarrow>
            length (rebuilds (srv (run cfg fs w es))) = length (rebuilds (srv w)) + (requests es + 1) div 2)
       \<and> (workerState (srv w) = 1 \<longrightarrow>
            length (rebuilds (srv (run cfg fs w es))) = length (rebuilds (srv w)) + requests es div 2)"
  using assms
proof (induction es arbitrary: w)
  case Nil
  show ?case by simp
next
  case (Cons e es)
  show ?case
  proof (cases e)
    case (Request url)
    with Cons.prems have wr: "worker_request cfg url" and rest: "only_worker_requests cfg es"
      by simp_all
    have live: "\<not> exited (step cfg fs w (Request url))"
      using Cons.prems(2) by simp
    show ?thesis
    proof (intro conjI impI)
      assume z: "workerState (srv w) = 0"
      note f = worker_first [OF wr z Cons.prems(3), of fs]
      from Cons.IH [OF rest live] f Cons.prems(2)
      show "length (rebuilds (srv (run cfg fs w (e # es))))
          = length (rebuilds (srv w)) + (requests (e # es) + 1) div 2"
        by (simp add: Request)
    next
      assume o: "workerState (srv w) = 1"
      note s = worker_second [OF wr o Cons.prems(3), of fs]
      from Cons.IH [OF rest live] s Cons.prems(2)
      show "length (rebuilds (srv (run cfg fs w (e # es))))
          = length (rebuilds (srv w)) + requests (e # es) div 2"
        by (simp add: Request)
    qed
  next
    case (RebuildSucceeds h files)
    then have ne: "\<not> (\<exists>url. e = Request url)" by simp
    from Cons.prems RebuildSucceeds have rest: "only_worker_requests cfg es" by simp
    have live: "\<not> exited (step cfg fs w e)"
      using Cons.prems(2) RebuildSucceeds by simp
    from Cons.IH [OF rest live] step_other [OF ne, of cfg fs w] Cons.prems(2,3)
    show ?thesis by (simp add: RebuildSucceeds)
  next
    case (RebuildFails h)
    with Cons.prems(1) show ?thesis by simp
  qed
qed

text \<open>
  From the start of the server, and from every state in which \<open>workerState\<close> is 0
  and the worker script's count equals \<open>buildCount\<close>, requests for the worker
  script alone, with rebuilds succeeding in between, call \<open>ctx.rebuild()\<close> once
  for every two requests, rounded up: there the second request of a pair starts no
  rebuild, as the comment on \<open>workerState\<close> intends.
\<close>

lemma worker_requests_rebuild_every_second:
  assumes "only_worker_requests cfg es" and "\<not> exited w"
    and "workerState (srv w) = 0"
    and "map_of (requestCount (srv w)) ''simulator.worker.js'' = Some (buildCount (srv w))"
  shows "length (rebuilds (srv (run cfg fs w es)))
           = length (rebuilds (srv w)) + (requests es + 1) div 2"
  using worker_run [OF assms(1,2,4), of fs] assms(3) by simp

text \<open>
  Claim C3. A sequence of N consecutive requests for the worker script, with no other
  request in between and no failed rebuild, is to call \<open>ctx.rebuild()\<close> at most
  N/2 times, rounded up: the second request of a pair must not rebuild. The code
  does not keep to this. After two requests for \<open>bundle.js\<close> the worker script's
  count is two behind \<open>buildCount\<close>; the first of two consecutive requests for the
  worker script computes the count 1 against \<open>buildCount\<close> 2 and the second the
  count 1 against \<open>buildCount\<close> 3, so each of them starts a rebuild: two rebuilds
  for N = 2.
\<close>

theorem C3_two_worker_requests_two_rebuilds:
  "\<not> (length (rebuilds (srv (run default_config empty_disk init_world
      [Request ''/uma-tools/umalator-global/bundle.js'',
       Request ''/uma-tools/umalator-global/bundle.js'',
       Request ''/uma-tools/umalator-global/simulator.worker.js'',
       Request ''/uma-tools/umalator-global/simulator.worker.js''])))
   - length (rebuilds (srv (run default_config empty_disk init_world
      [Request ''/uma-tools/umalator-global/bundle.js'',
       Request ''/uma-tools/umalator-global/bundle.js''])))
   \<le> (2 + 1) div 2)
   \<and> rebuilds (srv (run default_config empty_disk init_world
      [Request ''/uma-tools/umalator-global/bundle.js'',
       Request ''/uma-tools/umalator-global/bundle.js'',
       Request ''/uma-tools/umalator-global/simulator.worker.js'',
       Request ''/uma-tools/umalator-global/simulator.worker.js'']))
     = [Running, Running, Running, Running]
   \<and> requestN (srv (run default_config empty_disk init_world
      [Request ''/uma-tools/umalator-global/bundle.js'',
       Request ''/uma-tools/umalator-global/bundle.js''])) ''simulator.worker.js'' = Some 1
   \<and> buildCount (srv (run default_config empty_disk init_world
      [Request ''/uma-tools/umalator-global/bundle.js'',
       Request ''/uma-tools/umalator-global/bundle.js''])) = 2
   \<and> requestN (srv (run default_config empty_disk init_world
      [Request ''/uma-tools/umalator-global/bundle.js'',
       Request ''/uma-tools/umalator-global/bundle.js'',
       Request ''/uma-tools/umalator-global/simulator.worker.js''])) ''simulator.worker.js'' = Some 1
   \<and> buildCount (srv (run default_config empty_disk init_world
      [Request ''/uma-tools/umalator-global/bundle.js'',
       Request ''/uma-tools/umalator-global/bundle.js'',
       Request ''/uma-tools/umalator-global/simulator.worker.js''])) = 3"
  by code_simp

section \<open>Handles and waiting requests\<close>





lemma awaited_resume [simp]: "awaited (resume m w x) = awaited w"
  by (simp add: resume_def split: option.splits)

lemma awaited_foldl_resume [simp]: "awaited (foldl (resume m) w xs) = awaited w"
  by (induction xs arbitrary: w) simp_all

lemma next_id_resume [simp]: "next_id (resume m w x) = next_id w"
  by (simp add: resume_def split: option.splits)

lemma next_id_foldl_resume [simp]: "next_id (foldl (resume m) w xs) = next_id w"
  by (induction xs arbitrary: w) simp_all





















section \<open>Failed rebuilds\<close>

lemma run_exited: "exited w \<Longrightarrow> run cfg fs w es = w"
  by (cases es) simp_all

text \<open>
  Claim C4, as amended. When a running rebuild fails, nothing handles the rejection:
  the promise that \<open>output\<close> refers to is not settled, no response of any kind is
  written and no waiting handler is resumed, and the unhandled rejection ends the
  process. No event after the failure is handled: the requests that were waiting and
  the requests that come later are never answered, and no further rebuild is
  started.
\<close>

theorem C4_failed_rebuild_ends_process:
  assumes "h < length (rebuilds (srv w))" and "rebuilds (srv w) ! h = Running"
    and "w' = step cfg fs w (RebuildFails h)"
  shows "promise_of (srv w') h = Pending
       \<and> sent w' = sent w \<and> threw w' = threw w \<and> waiting w' = waiting w
       \<and> exited w'
       \<and> run cfg fs w' es = w'
       \<and> sent (run cfg fs w' es) = sent w
       \<and> waiting (run cfg fs w' es) = waiting w
       \<and> rebuilds (srv (run cfg fs w' es)) = (rebuilds (srv w))[h := Failed]"
proof -
  from assms have w': "w' = w\<lparr>srv := (srv w)\<lparr>rebuilds := (rebuilds (srv w))[h := Failed]\<rparr>, exited := True\<rparr>"
    by (simp add: on_failure_def)
  then have "exited w'" by simp
  then have "run cfg fs w' es = w'" by (rule run_exited)
  with w' assms(1) show ?thesis
    by (simp add: promise_of_def)
qed

theorem C4_failed_rebuild_ends_process_witness:
  "0 < length (rebuilds (srv (run default_config empty_disk init_world
        [Request ''/uma-tools/umalator-global/bundle.js''])))
   \<and> rebuilds (srv (run default_config empty_disk init_world
        [Request ''/uma-tools/umalator-global/bundle.js''])) ! 0 = Running
   \<and> waiting (run default_config empty_disk init_world
        [Request ''/uma-tools/umalator-global/bundle.js'']) = [(0, Some 0, ''bundle.js'')]
   \<and> sent (run default_config empty_disk init_world
        [Request ''/uma-tools/umalator-global/bundle.js'']) = []
   \<and> exited (step default_config empty_disk
        (run default_config empty_disk init_world [Request ''/uma-tools/umalator-global/bundle.js''])
        (RebuildFails 0))
   \<and> sent (run default_config empty_disk
        (step default_config empty_disk
          (run default_config empty_disk init_world [Request ''/uma-tools/umalator-global/bundle.js''])
          (RebuildFails 0))
        [Request ''/uma-tools/umalator-global/bundle.js'',
         Request ''/uma-tools/umalator-global/bundle.css'']) = []
   \<and> waiting (run default_config empty_disk
        (step default_config empty_disk
          (run default_config empty_disk init_world [Request ''/uma-tools/umalator-global/bundle.js''])
          (RebuildFails 0))
        [Request ''/uma-tools/umalator-global/bundle.js'',
         Request ''/uma-tools/umalator-global/bundle.css'']) = [(0, Some 0, ''bundle.js'')]"
proof -
  let ?w = "run default_config empty_disk init_world [Request ''/uma-tools/umalator-global/bundle.js'']"
  have a: "0 < length (rebuilds (srv ?w))" by code_simp
  have b: "rebuilds (srv ?w) ! 0 = Running" by code_simp
  have c: "waiting ?w = [(0, Some 0, ''bundle.js'')]" by code_simp
  have d: "sent ?w = []" by code_simp
  note t = C4_failed_rebuild_ends_process [OF a b refl, of default_config empty_disk
      "[Request ''/uma-tools/umalator-global/bundle.js'',
        Request ''/uma-tools/umalator-global/bundle.css'']"]
  from t have e: "exited (step default_config empty_disk ?w (RebuildFails 0))"
    by blast
  from t c d have f: "sent (run default_config empty_disk
        (step default_config empty_disk ?w (RebuildFails 0))
        [Request ''/uma-tools/umalator-global/bundle.js'',
         Request ''/uma-tools/umalator-global/bundle.css'']) = []"
    and g: "waiting (run default_config empty_disk
        (step default_config empty_disk ?w (RebuildFails 0))
        [Request ''/uma-tools/umalator-global/bundle.js'',
         Request ''/uma-tools/umalator-global/bundle.css'']) = [(0, Some 0, ''bundle.js'')]"
    by metis+
  from a b c d e f g show ?thesis by blast
qed

text \<open>
  Claim C4 as stated fails: when the rebuild started by a request for \<open>bundle.js\<close>
  fails, that request gets no response, and a second request for \<open>bundle.js\<close>, whose
  count would differ from \<open>buildCount\<close>, is not handled any more: no response is
  written, nothing is thrown into a handler, and no new rebuild is started.
\<close>

theorem C4_failure_is_not_observed:
  "sent (run default_config empty_disk init_world
      [Request ''/uma-tools/umalator-global/bundle.js'', RebuildFails 0,
       Request ''/uma-tools/umalator-global/bundle.js'']) = []
   \<and> threw (run default_config empty_disk init_world
      [Request ''/uma-tools/umalator-global/bundle.js'', RebuildFails 0,
       Request ''/uma-tools/umalator-global/bundle.js'']) = []
   \<and> waiting (run default_config empty_disk init_world
      [Request ''/uma-tools/umalator-global/bundle.js'', RebuildFails 0,
       Request ''/uma-tools/umalator-global/bundle.js''])
     = [(0, Some 0, ''bundle.js'')]
   \<and> rebuilds (srv (run default_config empty_disk init_world
      [Request ''/uma-tools/umalator-global/bundle.js'', RebuildFails 0,
       Request ''/uma-tools/umalator-global/bundle.js''])) = [Failed]
   \<and> exited (run default_config empty_disk init_world
      [Request ''/uma-tools/umalator-global/bundle.js'', RebuildFails 0,
       Request ''/uma-tools/umalator-global/bundle.js''])"
  by code_simp

section \<open>The data rules\<close>

lemma startsWith_append:
  "startsWith p (a @ b) \<longleftrightarrow> startsWith p a \<and> startsWith (drop (length a) p) b"
proof (cases "length a \<le> length p")
  case True
  have "take (length a + length b) p = take (length a) p @ take (length b) (drop (length a) p)"
    by (simp add: take_add)
  with True show ?thesis by (auto simp: startsWith_def)
next
  case False
  then show ?thesis by (auto simp: startsWith_def)
qed

lemma lit_Nil [simp]: "lit l [] = []"
  by (simp add: lit_def)

lemma lit_Cons:
  "lit l (p # ps) = (if startsWith p l then drop (length l) p # lit l ps else lit l ps)"
  by (simp add: lit_def)

lemma lit_append: "lit l (xs @ ys) = lit l xs @ lit l ys"
  by (simp add: lit_def)

lemma dataFilter_iff: "dataFilter p \<longleftrightarrow> list_ex (startsWith p) DATA_PREFIXES"
proof -
  have a: "startsWith p ''./data/'' \<longleftrightarrow> startsWith p ''.'' \<and> startsWith (drop 1 p) ''/data/''"
    using startsWith_append [of p "''.''" "''/data/''"] by simp
  have b: "startsWith p ''../data/'' \<longleftrightarrow>
      startsWith p ''.'' \<and> startsWith (drop 1 p) ''.'' \<and> startsWith (drop (length ''..'') p) ''/data/''"
    using startsWith_append [of p "''.''" "''./data/''"]
      startsWith_append [of "drop 1 p" "''.''" "''/data/''"] by simp
  have c: "startsWith p ''./uma-skill-tools/data/'' \<longleftrightarrow>
      startsWith p ''.'' \<and> startsWith (drop 1 p) ''/uma-skill-tools'' \<and> startsWith (drop (length ''./uma-skill-tools'') p) ''/data/''"
    using startsWith_append [of p "''.''" "''/uma-skill-tools/data/''"]
      startsWith_append [of "drop 1 p" "''/uma-skill-tools''" "''/data/''"] by simp
  have d: "startsWith p ''../uma-skill-tools/data/'' \<longleftrightarrow>
      startsWith p ''.'' \<and> startsWith (drop 1 p) ''.''
      \<and> startsWith (drop (length ''..'') p) ''/uma-skill-tools''
      \<and> startsWith (drop (length ''../uma-skill-tools'') p) ''/data/''"
    using startsWith_append [of p "''.''" "''./uma-skill-tools/data/''"]
      startsWith_append [of "drop 1 p" "''.''" "''/uma-skill-tools/data/''"]
      startsWith_append [of "drop (length ''..'') p" "''/uma-skill-tools''" "''/data/''"] by simp
  show ?thesis
    unfolding DATA_PREFIXES_def
    by (simp add: a b c d dataFilter_def opt_def lit_Cons lit_append)
qed


lemma split_js_no_occurrence:
  assumes "sep \<noteq> []" and "\<not> includes_str s sep"
  shows "split_js sep acc s = [rev acc @ s]"
  using assms(2)
proof (induction s arbitrary: acc)
  case Nil
  show ?case by simp
next
  case (Cons c cs)
  from Cons.prems have here: "\<not> startsWith (c # cs) sep" and later: "\<not> includes_str cs sep"
    by (simp_all add: includes_str_def)
  from Cons.IH [OF later, of "c # acc"] here assms(1) show ?case by simp
qed

lemma split_js_nonempty: "split_js sep acc s \<noteq> []"
  by (induction sep acc s rule: split_js.induct) auto

lemma split_data_prefix:
  assumes "pre \<in> set DATA_PREFIXES"
  shows "\<exists>a. split (pre @ rest) ''/data/'' = a # split rest ''/data/''"
  using assms
  by (auto simp: DATA_PREFIXES_def split_def startsWith_def)

lemma data_callback_prefix:
  assumes "pre \<in> set DATA_PREFIXES"
  shows "data_callback dirname (pre @ rest)
           = Resolved (path_join [dirname, hd (split rest ''/data/'')]) ''file''"
proof -
  from split_data_prefix [OF assms] obtain a
    where a: "split (pre @ rest) ''/data/'' = a # split rest ''/data/''" by blast
  obtain b bs where b: "split rest ''/data/'' = b # bs"
    using split_js_nonempty [of "''/data/''" "[]" rest] by (cases "split rest ''/data/''") (auto simp: split_def)
  show ?thesis by (simp add: data_callback_def a b)
qed

lemma dataFilter_prefix: "pre \<in> set DATA_PREFIXES \<Longrightarrow> dataFilter (pre @ rest)"
  by (auto simp: dataFilter_iff DATA_PREFIXES_def startsWith_def)

lemma onResolve_data: "dataFilter p \<Longrightarrow> onResolve dirname p = Some (data_callback dirname p)"
  by (simp add: onResolve_def redirectData_def)

text \<open>
  Claim C6, as amended. The data rule applies exactly to the specifiers that begin with
  \<open>./\<close> or \<open>../\<close>, then optionally \<open>uma-skill-tools/\<close>, then \<open>data/\<close>. Such a
  specifier whose remainder contains no further \<open>/data/\<close> is rewritten to
  \<open>path.join\<close> of the directory of the build script and the remainder. A specifier
  that climbs more than one level before \<open>data/\<close> is not matched by the rule.
\<close>

theorem C6_data_rule_rewrites_known_prefixes:
  assumes "pre \<in> set DATA_PREFIXES" and "\<not> includes_str rest ''/data/''"
  shows "onResolve dirname (pre @ rest) = Some (Resolved (path_join [dirname, rest]) ''file'')
       \<and> (dataFilter p \<longleftrightarrow> list_ex (startsWith p) DATA_PREFIXES)"
proof -
  have 1: "onResolve dirname (pre @ rest)
           = Some (Resolved (path_join [dirname, hd (split rest ''/data/'')]) ''file'')"
    using assms(1) by (simp add: onResolve_data dataFilter_prefix data_callback_prefix)
  have 2: "hd (split rest ''/data/'') = rest"
    using split_js_no_occurrence [OF _ assms(2), of "[]"] by (simp add: split_def)
  from 1 2 dataFilter_iff show ?thesis by simp
qed

theorem C6_data_rule_rewrites_known_prefixes_witness:
  "''../uma-skill-tools/data/'' \<in> set DATA_PREFIXES
   \<and> \<not> includes_str ''skill_data.json'' ''/data/''
   \<and> onResolve ''/repo/umalator-global'' (''../uma-skill-tools/data/'' @ ''skill_data.json'')
       = Some (Resolved (path_join [''/repo/umalator-global'', ''skill_data.json'']) ''file'')"
proof -
  have a: "''../uma-skill-tools/data/'' \<in> set DATA_PREFIXES" by (simp add: DATA_PREFIXES_def)
  have b: "\<not> includes_str ''skill_data.json'' ''/data/''" by code_simp
  from C6_data_rule_rewrites_known_prefixes [OF a b, of "''/repo/umalator-global''"] a b
  show ?thesis by blast
qed

text \<open>
  Claim C6 as stated fails: a specifier two levels up is left to the bundler's own
  resolution, and a specifier with a second \<open>/data/\<close> is rewritten to the directory
  named before it.
\<close>

theorem C6_deeper_specifier_not_rewritten:
  "onResolve ''/repo/umalator-global'' ''../../data/course_data.json'' = None
   \<and> onResolve ''/repo/umalator-global'' ''./data/a/data/b.json''
       = Some (Resolved ''/repo/umalator-global/a'' ''file'')"
  by code_simp





end
